theory Spec2Isabelle
  imports Complex_Main "HOL-Library.Multiset"
begin

section \<open>The audio transcriber: data\<close>

text \<open>
  The program is \<^verbatim>\<open>transcribe_audio.py\<close>: \<^verbatim>\<open>setup_ffmpeg\<close>, \<^verbatim>\<open>transcribe_audio\<close> and
  \<^verbatim>\<open>main\<close>. The speech-recognition library, the directory scan, the process environment
  and the console are outside the source; they appear below as the answers a run gets
  from them (a record \<open>world\<close>) and as the events a run produces.

  The dictionary the recognition library returns has the key \<^verbatim>\<open>text\<close> and may have the
  keys \<^verbatim>\<open>language\<close> and \<^verbatim>\<open>segments\<close>; a key the source reads with \<^verbatim>\<open>.get\<close> or tests with
  \<^verbatim>\<open>in\<close> is an optional field. A segment is a dictionary with \<^verbatim>\<open>start\<close>, \<^verbatim>\<open>end\<close> and
  \<^verbatim>\<open>text\<close>. A finite floating-point number is a rational number, and the times are
  kept as the exact rational value of the float.
\<close>

record segment =
  seg_start :: rat
  seg_end :: rat
  seg_text :: string

record result =
  res_text :: string
  res_language :: "string option"
  res_segments :: "segment list option"

text \<open>An exception: \<^verbatim>\<open>type(e).__name__\<close> and \<^verbatim>\<open>str(e)\<close>.\<close>

datatype exn = Exn (kind: string) (message: string)

text \<open>
  How \<^verbatim>\<open>model.transcribe\<close> is called: without the keyword \<^verbatim>\<open>language\<close>, or with the
  keyword and its value, a Python value that is \<^verbatim>\<open>None\<close> or a string.
\<close>

datatype lang_kw = NoKw | Kw "string option"

section \<open>Formatting\<close>

definition digit :: "nat \<Rightarrow> char" where
  "digit d = ''0123456789'' ! d"

text \<open>\<^verbatim>\<open>str(n)\<close> of a non-negative integer.\<close>

function str_nat :: "nat \<Rightarrow> string" where
  "str_nat n = (if n < 10 then [digit n] else str_nat (n div 10) @ [digit (n mod 10)])"
  by pat_completeness auto
termination
  by (relation "measure id") auto

declare str_nat.simps [simp del]

text \<open>
  Rounding a non-negative rational to the nearest integer, an exact tie going to the
  even neighbour: the rounding of the correctly rounded float-to-decimal conversion
  behind \<^verbatim>\<open>format\<close>.
\<close>

definition round_half_even :: "rat \<Rightarrow> nat" where
  "round_half_even q =
     (let f = nat \<lfloor>q\<rfloor>; r = q - of_nat f
      in if r < 1 / 2 then f
         else if 1 / 2 < r then f + 1
         else if even f then f else f + 1)"

text \<open>
  \<^verbatim>\<open>f"{x:.2f}"\<close> of a finite float \<open>x\<close>: the sign, the integer digits, a point and two
  digits, of the value rounded to hundredths.
\<close>

definition fmt_2f :: "rat \<Rightarrow> string" where
  "fmt_2f x =
     (let n = round_half_even (\<bar>x\<bar> * 100)
      in (if x < 0 then ''-'' else '''')
         @ str_nat (n div 100) @ ''.'' @ [digit (n mod 100 div 10), digit (n mod 10)])"

section \<open>The report\<close>

definition output_file :: string where
  "output_file = ''whisper_transcript.txt''"

text \<open>The four writes of one round of the loop over the segments; \<open>i\<close> is the counter.\<close>

definition write_segment :: "nat \<Rightarrow> segment \<Rightarrow> string" where
  "write_segment i s =
     ''\<newline>Segment '' @ str_nat (i + 1) @ '':\<newline>''
     @ ''  Start: '' @ fmt_2f (seg_start s) @ ''s\<newline>''
     @ ''  End: '' @ fmt_2f (seg_end s) @ ''s\<newline>''
     @ ''  Text: '' @ seg_text s @ ''\<newline>''"

text \<open>
  The loop \<^verbatim>\<open>for i, segment in enumerate(result['segments'])\<close>, from the counter \<open>i\<close> on.
\<close>

fun write_segments :: "nat \<Rightarrow> segment list \<Rightarrow> string" where
  "write_segments i [] = ''''"
| "write_segments i (s # ss) = write_segment i s @ write_segments (i + 1) ss"

text \<open>\<^verbatim>\<open>result.get('language', 'Unknown')\<close>.\<close>

definition get_language :: "result \<Rightarrow> string" where
  "get_language r = (case res_language r of None \<Rightarrow> ''Unknown'' | Some l \<Rightarrow> l)"

text \<open>
  What the \<^verbatim>\<open>with open(output_file, "w")\<close> block of \<^verbatim>\<open>main\<close> writes: the text handed to
  \<^verbatim>\<open>f.write\<close>, before the encoding and the newline convention of the platform. First the
  six writes made in every case.
\<close>

definition report_preamble :: "string \<Rightarrow> result \<Rightarrow> string" where
  "report_preamble audio_file r =
     ''WHISPER TRANSCRIPTION RESULTS\<newline>''
     @ replicate 50 CHR ''='' @ ''\<newline>''
     @ ''Audio file: '' @ audio_file @ ''\<newline>''
     @ ''Model: base\<newline>''
     @ ''Language: '' @ get_language r @ ''\<newline>''
     @ ''Text: '' @ res_text r @ ''\<newline>''"

text \<open>Then the block under \<^verbatim>\<open>if 'segments' in result\<close>.\<close>

definition report_text :: "string \<Rightarrow> result \<Rightarrow> string" where
  "report_text audio_file r =
     report_preamble audio_file r
     @ (case res_segments r of
          None \<Rightarrow> ''''
        | Some ss \<Rightarrow> ''\<newline>Detailed segments:\<newline>'' @ write_segments 0 ss)"

text \<open>
  Opening with mode \<^verbatim>\<open>"w"\<close> truncates: the file holds what the block wrote and nothing
  of what it held before.
\<close>

definition save_report :: "(string \<rightharpoonup> string) \<Rightarrow> string \<Rightarrow> result \<Rightarrow> (string \<rightharpoonup> string)" where
  "save_report fs audio_file r = fs(output_file \<mapsto> report_text audio_file r)"

section \<open>What a run asks of its surroundings, and what it produces\<close>

text \<open>
  An entry of the scanned directory: a file, or a directory with its own entries. The
  scan of \<^verbatim>\<open>Path('.').glob(pattern)\<close> with a pattern of one component walks the entries
  of the directory itself, in the order the operating system lists them, and yields
  those whose name matches, whatever their kind.
\<close>

datatype entry = File string | Dir string "entry list"

fun entry_name :: "entry \<Rightarrow> string" where
  "entry_name (File n) = n"
| "entry_name (Dir n es) = n"

text \<open>
  The answers a run gets. \<open>exists_in_main\<close> and \<open>getsize\<close> are \<^verbatim>\<open>os.path.exists\<close> and
  \<^verbatim>\<open>os.path.getsize\<close> as \<^verbatim>\<open>main\<close> calls them, \<open>exists_in_transcribe\<close> is \<^verbatim>\<open>os.path.exists\<close>
  as \<^verbatim>\<open>transcribe_audio\<close> calls it later: the file system may change in between.
  \<open>load_model\<close> is \<^verbatim>\<open>whisper.load_model(model_size)\<close>, which raises or returns a model;
  \<open>model_transcribe\<close> is \<^verbatim>\<open>transcribe\<close> of the model of that size. What these two raise is
  an instance of \<^verbatim>\<open>Exception\<close>. \<open>files\<close> is the content of the files of the working
  directory when the run starts. Writing to the console and to the output file succeeds.
  \<open>pathsep\<close> is \<^verbatim>\<open>os.pathsep\<close>, and \<open>path_flavour\<close> the flavour \<^verbatim>\<open>pathlib\<close> works with.
\<close>

text \<open>The flavour of paths of the platform the run is on.\<close>

datatype flavour = Posix | Windows

record world =
  ffmpeg_dir :: string
  ffmpeg_dir_exists :: bool
  env_PATH :: "string option"
  pathsep :: string
  path_flavour :: flavour
  dir_entries :: "entry list"
  exists_in_main :: "string \<Rightarrow> bool"
  getsize :: "string \<Rightarrow> exn + nat"
  exists_in_transcribe :: "string \<Rightarrow> bool"
  load_model :: "string \<Rightarrow> exn option"
  model_transcribe :: "string \<Rightarrow> string \<Rightarrow> lang_kw \<Rightarrow> exn + result"
  files :: "string \<rightharpoonup> string"

text \<open>The lines printed, one constructor for each \<^verbatim>\<open>print\<close> of the source, with its values.\<close>

datatype msg =
    AddedFfmpeg string
  | FfmpegNotFound
  | NoAudioFiles
  | FoundAudioFiles "string list"
  | Rule50
  | TestingBase
  | UsingAudioFile string
  | FileExists bool
  | FileSize nat
  | LoadingModel string
  | Transcribing string
  | ErrorWith string string
  | ErrorType string
  | BlankRule50
  | Successful
  | TextLine string
  | LanguageLine string
  | SegmentsCount nat
  | ResultsSaved string
  | TranscriptionFailed

datatype event =
    Print msg
  | SetPATH string
  | LoadModel string
  | Transcribe string lang_kw
  | WriteFile string string

text \<open>How a run ends: what it did, the exception that left \<^verbatim>\<open>main\<close> if one did, the files.\<close>

record outcome =
  trace :: "event list"
  raised :: "exn option"
  files_after :: "string \<rightharpoonup> string"

section \<open>\<^verbatim>\<open>setup_ffmpeg\<close>\<close>

text \<open>\<^verbatim>\<open>sub in s\<close> on strings.\<close>

fun py_in :: "string \<Rightarrow> string \<Rightarrow> bool" where
  "py_in sub [] = (sub = [])"
| "py_in sub (c # cs) = (take (length sub) (c # cs) = sub \<or> py_in sub cs)"

text \<open>
  \<^verbatim>\<open>os.environ['PATH']\<close> raises \<^verbatim>\<open>KeyError\<close> when the variable is not set; nothing catches
  it.
\<close>

definition setup_ffmpeg :: "world \<Rightarrow> event list \<times> (exn + bool)" where
  "setup_ffmpeg w =
     (if ffmpeg_dir_exists w then
        (case env_PATH w of
           None \<Rightarrow> ([], Inl (Exn ''KeyError'' ([CHR 0x27] @ ''PATH'' @ [CHR 0x27])))
         | Some p \<Rightarrow>
             if \<not> py_in (ffmpeg_dir w) p
             then ([SetPATH (ffmpeg_dir w @ pathsep w @ p), Print (AddedFfmpeg (ffmpeg_dir w))],
                   Inr True)
             else ([], Inr True))
      else ([Print FfmpegNotFound], Inr False))"

section \<open>\<^verbatim>\<open>transcribe_audio\<close>\<close>

text \<open>The truth value of \<^verbatim>\<open>language\<close>, which is \<^verbatim>\<open>None\<close> or a string.\<close>

definition truthy :: "string option \<Rightarrow> bool" where
  "truthy language = (case language of None \<Rightarrow> False | Some l \<Rightarrow> l \<noteq> [])"

text \<open>The body of the \<^verbatim>\<open>try\<close>: what it did, and the exception raised or the value returned.\<close>

definition transcribe_try :: "world \<Rightarrow> string \<Rightarrow> string \<Rightarrow> string option \<Rightarrow> event list \<times> (exn + result)" where
  "transcribe_try w audio_path model_size language =
     (if \<not> exists_in_transcribe w audio_path
      then ([], Inl (Exn ''FileNotFoundError'' (''Audio file not found: '' @ audio_path)))
      else
        (case load_model w model_size of
           Some x \<Rightarrow> ([Print (LoadingModel model_size), LoadModel model_size], Inl x)
         | None \<Rightarrow>
             (let kw = (if truthy language then Kw language else NoKw)
              in ([Print (LoadingModel model_size), LoadModel model_size,
                   Print (Transcribing audio_path), Transcribe audio_path kw],
                  model_transcribe w model_size audio_path kw))))"

text \<open>\<^verbatim>\<open>except Exception as e\<close>: two lines printed, \<^verbatim>\<open>None\<close> returned.\<close>

definition transcribe_audio :: "world \<Rightarrow> string \<Rightarrow> string \<Rightarrow> string option \<Rightarrow> event list \<times> result option" where
  "transcribe_audio w audio_path model_size language =
     (case transcribe_try w audio_path model_size language of
        (evs, Inl e) \<Rightarrow>
          (evs @ [Print (ErrorWith model_size (message e)), Print (ErrorType (kind e))], None)
      | (evs, Inr r) \<Rightarrow> (evs, Some r))"

section \<open>\<^verbatim>\<open>main\<close>\<close>

definition audio_extensions :: "string list" where
  "audio_extensions = [''.mp3'', ''.wav'', ''.m4a'', ''.flac'', ''.ogg'']"

text \<open>
  A name matches the pattern \<^verbatim>\<open>*\<close> followed by \<open>ext\<close> when it ends with \<open>ext\<close>; no
  character of the five extensions is special in a pattern. How the two are compared is
  the flavour's choice: \<^verbatim>\<open>pathlib\<close> compiles the pattern as it is on POSIX, and to ignore
  case on Windows. Ignoring case, a letter of the five extensions matches itself and its
  upper-case form, and no other character.
\<close>

definition endswith :: "string \<Rightarrow> string \<Rightarrow> bool" where
  "endswith ext name =
     (length ext \<le> length name \<and> drop (length name - length ext) name = ext)"

definition lower :: "char \<Rightarrow> char" where
  "lower c =
     (case map_of (zip ''ABCDEFGHIJKLMNOPQRSTUVWXYZ'' ''abcdefghijklmnopqrstuvwxyz'') c of
        None \<Rightarrow> c
      | Some d \<Rightarrow> d)"

fun casefold :: "flavour \<Rightarrow> string \<Rightarrow> string" where
  "casefold Posix s = s"
| "casefold Windows s = map lower s"

definition name_matches :: "flavour \<Rightarrow> string \<Rightarrow> string \<Rightarrow> bool" where
  "name_matches fl ext name = endswith (casefold fl ext) (casefold fl name)"

definition glob_star :: "flavour \<Rightarrow> entry list \<Rightarrow> string \<Rightarrow> string list" where
  "glob_star fl es ext = filter (name_matches fl ext) (map entry_name es)"

text \<open>
  \<^verbatim>\<open>for ext in audio_extensions: audio_files.extend(Path('.').glob(f'*{ext}'))\<close>, from the
  empty list.
\<close>

definition discoverInput :: "flavour \<Rightarrow> entry list \<Rightarrow> string list" where
  "discoverInput fl es =
     fold (\<lambda>ext audio_files. audio_files @ glob_star fl es ext) audio_extensions []"

text \<open>
  \<^verbatim>\<open>if result:\<close> holds for every dictionary returned, which has the key \<^verbatim>\<open>text\<close> and so is
  not empty; it fails for \<^verbatim>\<open>None\<close>.
\<close>

definition main :: "world \<Rightarrow> outcome" where
  "main w =
     (case setup_ffmpeg w of (evs0, s) \<Rightarrow>
        (case s of
           Inl x \<Rightarrow> \<lparr>trace = evs0, raised = Some x, files_after = files w\<rparr>
         | Inr ok \<Rightarrow>
             if \<not> ok then \<lparr>trace = evs0, raised = None, files_after = files w\<rparr>
             else
               (case discoverInput (path_flavour w) (dir_entries w) of
                  [] \<Rightarrow> \<lparr>trace = evs0 @ [Print NoAudioFiles], raised = None, files_after = files w\<rparr>
                | audio_file # others \<Rightarrow>
                    (let evs1 = evs0 @
                           [Print (FoundAudioFiles (audio_file # others)), Print Rule50,
                            Print TestingBase, Print Rule50,
                            Print (UsingAudioFile audio_file),
                            Print (FileExists (exists_in_main w audio_file))]
                     in case getsize w audio_file of
                          Inl x \<Rightarrow> \<lparr>trace = evs1, raised = Some x, files_after = files w\<rparr>
                        | Inr n \<Rightarrow>
                            (case transcribe_audio w audio_file ''base'' None of (evs2, result) \<Rightarrow>
                               (case result of
                                  None \<Rightarrow>
                                    \<lparr>trace = evs1 @ [Print (FileSize n)] @ evs2
                                               @ [Print TranscriptionFailed],
                                     raised = None, files_after = files w\<rparr>
                                | Some r \<Rightarrow>
                                    \<lparr>trace = evs1 @ [Print (FileSize n)] @ evs2 @
                                       [Print BlankRule50, Print Successful, Print Rule50,
                                        Print (TextLine (res_text r)),
                                        Print (LanguageLine (get_language r)),
                                        Print (SegmentsCount
                                          (case res_segments r of None \<Rightarrow> 0 | Some ss \<Rightarrow> length ss)),
                                        WriteFile output_file (report_text audio_file r),
                                        Print (ResultsSaved output_file)],
                                     raised = None,
                                     files_after = save_report (files w) audio_file r\<rparr>))))))"

section \<open>Reading a run\<close>

text \<open>The calls of \<^verbatim>\<open>model.transcribe\<close> in a trace: the path and the keyword of each.\<close>

fun transcribe_call :: "event \<Rightarrow> (string \<times> lang_kw) list" where
  "transcribe_call (Transcribe p kw) = [(p, kw)]"
| "transcribe_call ev = []"

definition transcribe_calls :: "event list \<Rightarrow> (string \<times> lang_kw) list" where
  "transcribe_calls t = concat (map transcribe_call t)"

text \<open>The texts written to the output file in a trace.\<close>

fun report_write :: "event \<Rightarrow> string list" where
  "report_write (WriteFile n c) = (if n = output_file then [c] else [])"
| "report_write ev = []"

definition reports_written :: "event list \<Rightarrow> string list" where
  "reports_written t = concat (map report_write t)"

text \<open>The files \<^verbatim>\<open>main\<close> announces with \<^verbatim>\<open>Using audio file:\<close>.\<close>

fun using_file :: "event \<Rightarrow> string list" where
  "using_file (Print (UsingAudioFile f)) = [f]"
| "using_file ev = []"

definition files_used :: "event list \<Rightarrow> string list" where
  "files_used t = concat (map using_file t)"

text \<open>
  The run gets as far as calling \<^verbatim>\<open>transcribe_audio\<close> on \<open>f\<close>: the set-up returned
  \<^verbatim>\<open>True\<close>, \<open>f\<close> is the first file found, and its size could be read.
\<close>

definition reaches_transcription :: "world \<Rightarrow> string \<Rightarrow> bool" where
  "reaches_transcription w f =
     (snd (setup_ffmpeg w) = Inr True
      \<and> (case discoverInput (path_flavour w) (dir_entries w) of [] \<Rightarrow> False | a # others \<Rightarrow> a = f)
      \<and> (case getsize w f of Inl x \<Rightarrow> False | Inr n \<Rightarrow> True))"

text \<open>The keyword \<^verbatim>\<open>transcribe_audio\<close> calls the model with, for a value of \<^verbatim>\<open>language\<close>.\<close>

definition kw_of :: "string option \<Rightarrow> lang_kw" where
  "kw_of language = (if truthy language then Kw language else NoKw)"


text \<open>A name has one of the five extensions.\<close>

definition is_audio_name :: "flavour \<Rightarrow> string \<Rightarrow> bool" where
  "is_audio_name fl n = list_ex (\<lambda>ext. name_matches fl ext n) audio_extensions"

text \<open>Decimal digits and the number a string of them denotes.\<close>

definition is_dec :: "char \<Rightarrow> bool" where
  "is_dec c = (c \<in> set ''0123456789'')"

definition dec_value :: "string \<Rightarrow> nat" where
  "dec_value ds = fold (\<lambda>c n. 10 * n + (of_char c - 48)) ds 0"

section \<open>Example runs\<close>

definition demo_result :: result where
  "demo_result =
     \<lparr>res_text = ''hello'', res_language = Some ''en'',
      res_segments = Some [\<lparr>seg_start = 0, seg_end = 5 / 2, seg_text = ''hello''\<rparr>]\<rparr>"

text \<open>
  A directory with \<^verbatim>\<open>b.wav\<close> listed before \<^verbatim>\<open>a.mp3\<close>, a subdirectory holding an audio
  file, and a file that is not audio, on a POSIX platform; the decoder directory is
  there, and the library works.
\<close>

definition demo_world :: world where
  "demo_world =
     \<lparr>ffmpeg_dir = ''ffmpeg-master-latest-win64-gpl/bin'',
      ffmpeg_dir_exists = True,
      env_PATH = Some ''/usr/bin'',
      pathsep = '':'',
      path_flavour = Posix,
      dir_entries = [File ''b.wav'', Dir ''sub'' [File ''c.ogg''], File ''a.mp3'', File ''notes.txt''],
      exists_in_main = (\<lambda>p. True),
      getsize = (\<lambda>p. Inr 1000),
      exists_in_transcribe = (\<lambda>p. True),
      load_model = (\<lambda>m. None),
      model_transcribe = (\<lambda>m p kw. Inr demo_result),
      files = Map.empty\<rparr>"

text \<open>The same, with a library that runs out of memory while transcribing.\<close>

definition failing_world :: world where
  "failing_world =
     demo_world\<lparr>model_transcribe := (\<lambda>m p kw. Inl (Exn ''MemoryError'' ''out of memory''))\<rparr>"

text \<open>The same, with the file removed after \<^verbatim>\<open>main\<close> read its size.\<close>

definition vanished_world :: world where
  "vanished_world = demo_world\<lparr>exists_in_transcribe := (\<lambda>p. p \<noteq> ''a.mp3'')\<rparr>"

text \<open>
  The same, with \<^verbatim>\<open>a.mp3\<close> a symbolic link to a file that is not there: the scan lists
  it, \<^verbatim>\<open>os.path.exists\<close> is false and \<^verbatim>\<open>os.path.getsize\<close> raises.
\<close>

definition dangling_world :: world where
  "dangling_world =
     demo_world\<lparr>exists_in_main := (\<lambda>p. p \<noteq> ''a.mp3''),
                getsize := (\<lambda>p. if p = ''a.mp3''
                   then Inl (Exn ''FileNotFoundError''
                     (''[Errno 2] No such file or directory: '' @ [CHR 0x27] @ p @ [CHR 0x27]))
                   else Inr 1000),
                exists_in_transcribe := (\<lambda>p. p \<noteq> ''a.mp3'')\<rparr>"

section \<open>Digits and rounding\<close>

lemma lt10_cases:
  "d < 10 \<Longrightarrow> d = 0 \<or> d = 1 \<or> d = 2 \<or> d = 3 \<or> d = 4 \<or> d = 5 \<or> d = 6 \<or> d = 7 \<or> d = 8 \<or> d = (9::nat)"
  by arith

lemma digit_is_dec: "d < 10 \<Longrightarrow> is_dec (digit d)"
  using lt10_cases [of d] by (auto simp: digit_def is_dec_def)

lemma digit_value: "d < 10 \<Longrightarrow> of_char (digit d) - 48 = d"
  using lt10_cases [of d] by (auto simp: digit_def)

lemma str_nat_small: "n < 10 \<Longrightarrow> str_nat n = [digit n]"
  by (subst str_nat.simps) simp

lemma str_nat_big: "\<not> n < 10 \<Longrightarrow> str_nat n = str_nat (n div 10) @ [digit (n mod 10)]"
  by (subst str_nat.simps) simp

lemma str_nat_dec: "list_all is_dec (str_nat n)"
proof (induction n rule: str_nat.induct)
  case (1 n)
  show ?case
  proof (cases "n < 10")
    case True
    then show ?thesis by (simp add: str_nat_small digit_is_dec)
  next
    case False
    with 1 show ?thesis by (simp add: str_nat_big digit_is_dec)
  qed
qed

lemma str_nat_nonempty: "str_nat n \<noteq> []"
  by (cases "n < 10") (simp_all add: str_nat_small str_nat_big)

lemma dec_value_snoc: "dec_value (ds @ [c]) = 10 * dec_value ds + (of_char c - 48)"
  by (simp add: dec_value_def)

lemma dec_value_str_nat: "dec_value (str_nat n) = n"
proof (induction n rule: str_nat.induct)
  case (1 n)
  show ?case
  proof (cases "n < 10")
    case True
    then show ?thesis by (simp add: str_nat_small dec_value_def digit_value)
  next
    case False
    with 1 show ?thesis by (simp add: str_nat_big dec_value_snoc digit_value)
  qed
qed

lemma round_half_even_near: "0 \<le> q \<Longrightarrow> \<bar>q - of_nat (round_half_even q)\<bar> \<le> 1 / 2"
proof -
  assume q: "0 \<le> q"
  define f where "f = nat \<lfloor>q\<rfloor>"
  have f: "of_nat f = (of_int \<lfloor>q\<rfloor> :: rat)" using q by (simp add: f_def)
  have lo: "of_nat f \<le> q" and hi: "q < of_nat f + 1" unfolding f by linarith+
  show ?thesis
    unfolding round_half_even_def Let_def f_def [symmetric]
    using lo hi by (auto simp: abs_if)
qed

section \<open>The segments loop\<close>

lemma write_segments_nth:
  "write_segments i ss = concat (map (\<lambda>k. write_segment (i + k) (ss ! k)) [0..<length ss])"
proof (induction ss arbitrary: i)
  case Nil
  show ?case by simp
next
  case (Cons s ss)
  have "map (\<lambda>k. write_segment (i + k) ((s # ss) ! k)) [0..<length (s # ss)]
      = write_segment i s # map (\<lambda>k. write_segment (i + 1 + k) (ss ! k)) [0..<length ss]"
    by (simp add: upt_conv_Cons map_Suc_upt [symmetric] del: upt_Suc)
  then show ?case using Cons.IH [of "i + 1"] by simp
qed

section \<open>The directory scan\<close>

lemma endswith_last: "endswith ext n \<Longrightarrow> ext \<noteq> [] \<Longrightarrow> last n = last ext"
proof -
  assume e: "endswith ext n" and ne: "ext \<noteq> []"
  have "n = take (length n - length ext) n @ ext"
    using e by (metis append_take_drop_id endswith_def)
  then show ?thesis using ne by (metis last_appendR)
qed

lemma mset_filter_disjoint:
  "(\<And>x. \<not> (P x \<and> Q x)) \<Longrightarrow> mset (filter P xs) + mset (filter Q xs) = mset (filter (\<lambda>x. P x \<or> Q x) xs)"
  by (induction xs) auto

lemma discoverInput_groups:
  "discoverInput fl es =
     glob_star fl es ''.mp3'' @ glob_star fl es ''.wav'' @ glob_star fl es ''.m4a''
     @ glob_star fl es ''.flac'' @ glob_star fl es ''.ogg''"
  by (simp add: discoverInput_def audio_extensions_def)

lemma casefold_extensions:
  "e \<in> set audio_extensions \<Longrightarrow> casefold fl e = e"
  by (cases fl) (auto simp: audio_extensions_def lower_def)

lemma ext_disjoint:
  "e1 \<in> set audio_extensions \<Longrightarrow> e2 \<in> set audio_extensions \<Longrightarrow>
   name_matches fl e1 n \<Longrightarrow> name_matches fl e2 n \<Longrightarrow> e1 = e2"
proof -
  assume a: "e1 \<in> set audio_extensions" "e2 \<in> set audio_extensions"
    "name_matches fl e1 n" "name_matches fl e2 n"
  then have m: "endswith e1 (casefold fl n)" "endswith e2 (casefold fl n)"
    by (simp_all add: name_matches_def casefold_extensions)
  from a have "e1 \<noteq> []" "e2 \<noteq> []" by (auto simp: audio_extensions_def)
  with m have "last e1 = last e2" by (metis endswith_last)
  with a(1,2) show ?thesis by (auto simp: audio_extensions_def)
qed

lemma mset_concat_filters:
  "distinct exts \<Longrightarrow>
   (\<And>a b x. a \<in> set exts \<Longrightarrow> b \<in> set exts \<Longrightarrow> P a x \<Longrightarrow> P b x \<Longrightarrow> a = b) \<Longrightarrow>
   mset (concat (map (\<lambda>e. filter (P e) xs) exts)) = mset (filter (\<lambda>x. list_ex (\<lambda>e. P e x) exts) xs)"
proof (induction exts)
  case Nil
  show ?case by simp
next
  case (Cons e exts)
  have dj: "\<not> (P e x \<and> list_ex (\<lambda>a. P a x) exts)" for x
    using Cons.prems by (auto simp: list_ex_iff)
  have "mset (concat (map (\<lambda>e. filter (P e) xs) (e # exts)))
      = mset (filter (P e) xs) + mset (filter (\<lambda>x. list_ex (\<lambda>e. P e x) exts) xs)"
    using Cons by simp
  also have "\<dots> = mset (filter (\<lambda>x. P e x \<or> list_ex (\<lambda>a. P a x) exts) xs)"
    using dj by (rule mset_filter_disjoint)
  finally show ?case by simp
qed

lemma discoverInput_mset:
  "mset (discoverInput fl es) = mset (filter (is_audio_name fl) (map entry_name es))"
proof -
  have "discoverInput fl es =
      concat (map (\<lambda>e. filter (name_matches fl e) (map entry_name es)) audio_extensions)"
    by (simp add: discoverInput_def audio_extensions_def glob_star_def)
  moreover have "distinct audio_extensions" by (simp add: audio_extensions_def)
  ultimately show ?thesis
    using mset_concat_filters [of audio_extensions "name_matches fl" "map entry_name es"]
      ext_disjoint [of _ _ fl]
    unfolding is_audio_name_def by metis
qed

section \<open>The cases of a run\<close>

lemma transcribe_audio_cases:
  obtains
    (missing) "\<not> exists_in_transcribe w p"
      "transcribe_audio w p m l =
         ([Print (ErrorWith m (''Audio file not found: '' @ p)), Print (ErrorType ''FileNotFoundError'')], None)"
  | (load_raises) x where "exists_in_transcribe w p" "load_model w m = Some x"
      "transcribe_audio w p m l =
         ([Print (LoadingModel m), LoadModel m, Print (ErrorWith m (message x)), Print (ErrorType (kind x))], None)"
  | (transcribe_raises) x where "exists_in_transcribe w p" "load_model w m = None"
      "model_transcribe w m p (kw_of l) = Inl x"
      "transcribe_audio w p m l =
         ([Print (LoadingModel m), LoadModel m, Print (Transcribing p), Transcribe p (kw_of l),
           Print (ErrorWith m (message x)), Print (ErrorType (kind x))], None)"
  | (returns) r where "exists_in_transcribe w p" "load_model w m = None"
      "model_transcribe w m p (kw_of l) = Inr r"
      "transcribe_audio w p m l =
         ([Print (LoadingModel m), LoadModel m, Print (Transcribing p), Transcribe p (kw_of l)], Some r)"
proof (cases "exists_in_transcribe w p")
  case False
  then show ?thesis using missing by (simp add: transcribe_audio_def transcribe_try_def)
next
  case ex: True
  show ?thesis
  proof (cases "load_model w m")
    case (Some x)
    with ex show ?thesis using load_raises by (simp add: transcribe_audio_def transcribe_try_def)
  next
    case None
    show ?thesis
    proof (cases "model_transcribe w m p (kw_of l)")
      case (Inl x)
      with ex None show ?thesis using transcribe_raises [of x]
        by (simp add: transcribe_audio_def transcribe_try_def kw_of_def Let_def)
    next
      case (Inr r)
      with ex None show ?thesis using returns [of r]
        by (simp add: transcribe_audio_def transcribe_try_def kw_of_def Let_def)
    qed
  qed
qed

lemma setup_ffmpeg_cases:
  obtains
    (path_unset) "setup_ffmpeg w = ([], Inl (Exn ''KeyError'' ([CHR 0x27] @ ''PATH'' @ [CHR 0x27])))"
  | (added) p where
      "setup_ffmpeg w =
         ([SetPATH (ffmpeg_dir w @ pathsep w @ p), Print (AddedFfmpeg (ffmpeg_dir w))], Inr True)"
  | (present) "setup_ffmpeg w = ([], Inr True)"
  | (no_decoder) "setup_ffmpeg w = ([Print FfmpegNotFound], Inr False)"
proof (cases "ffmpeg_dir_exists w")
  case False
  then show ?thesis using no_decoder by (simp add: setup_ffmpeg_def)
next
  case ex: True
  show ?thesis
  proof (cases "env_PATH w")
    case None
    with ex show ?thesis using path_unset by (simp add: setup_ffmpeg_def)
  next
    case (Some p)
    with ex show ?thesis using added [of p] present
      by (cases "py_in (ffmpeg_dir w) p") (simp_all add: setup_ffmpeg_def)
  qed
qed

lemma setup_ffmpeg_quiet:
  "transcribe_calls (fst (setup_ffmpeg w)) = []"
  "reports_written (fst (setup_ffmpeg w)) = []"
  "files_used (fst (setup_ffmpeg w)) = []"
  by (rule setup_ffmpeg_cases [where w = w];
      simp add: transcribe_calls_def reports_written_def files_used_def)+

lemma setup_ffmpeg_last:
  "snd (setup_ffmpeg w) = Inr False \<Longrightarrow> fst (setup_ffmpeg w) = [Print FfmpegNotFound]"
  by (rule setup_ffmpeg_cases [where w = w]) simp_all

lemma transcribe_audio_quiet:
  "reports_written (fst (transcribe_audio w p m l)) = []"
  "files_used (fst (transcribe_audio w p m l)) = []"
  by (rule transcribe_audio_cases [where w = w and p = p and m = m and l = l];
      simp add: reports_written_def files_used_def)+

lemma transcribe_audio_calls:
  "transcribe_calls (fst (transcribe_audio w p m l)) =
     (if exists_in_transcribe w p \<and> load_model w m = None then [(p, kw_of l)] else [])"
  by (rule transcribe_audio_cases [where w = w and p = p and m = m and l = l])
     (simp_all add: transcribe_calls_def)

lemma main_cases:
  obtains
    (setup_raises) evs x where
      "setup_ffmpeg w = (evs, Inl x)"
      "main w = \<lparr>trace = evs, raised = Some x, files_after = files w\<rparr>"
  | (no_decoder) evs where
      "setup_ffmpeg w = (evs, Inr False)"
      "main w = \<lparr>trace = evs, raised = None, files_after = files w\<rparr>"
  | (no_input) evs where
      "setup_ffmpeg w = (evs, Inr True)"
      "discoverInput (path_flavour w) (dir_entries w) = []"
      "main w = \<lparr>trace = evs @ [Print NoAudioFiles], raised = None, files_after = files w\<rparr>"
  | (size_raises) evs f others x where
      "setup_ffmpeg w = (evs, Inr True)"
      "discoverInput (path_flavour w) (dir_entries w) = f # others"
      "getsize w f = Inl x"
      "main w =
         \<lparr>trace = evs @ [Print (FoundAudioFiles (f # others)), Print Rule50, Print TestingBase,
                    Print Rule50, Print (UsingAudioFile f), Print (FileExists (exists_in_main w f))],
          raised = Some x, files_after = files w\<rparr>"
  | (failed) evs f others n evs2 where
      "setup_ffmpeg w = (evs, Inr True)"
      "discoverInput (path_flavour w) (dir_entries w) = f # others"
      "getsize w f = Inr n"
      "transcribe_audio w f ''base'' None = (evs2, None)"
      "main w =
         \<lparr>trace = evs @ [Print (FoundAudioFiles (f # others)), Print Rule50, Print TestingBase,
                    Print Rule50, Print (UsingAudioFile f), Print (FileExists (exists_in_main w f))]
                  @ [Print (FileSize n)] @ evs2 @ [Print TranscriptionFailed],
          raised = None, files_after = files w\<rparr>"
  | (succeeded) evs f others n evs2 r where
      "setup_ffmpeg w = (evs, Inr True)"
      "discoverInput (path_flavour w) (dir_entries w) = f # others"
      "getsize w f = Inr n"
      "transcribe_audio w f ''base'' None = (evs2, Some r)"
      "main w =
         \<lparr>trace = evs @ [Print (FoundAudioFiles (f # others)), Print Rule50, Print TestingBase,
                    Print Rule50, Print (UsingAudioFile f), Print (FileExists (exists_in_main w f))]
                  @ [Print (FileSize n)] @ evs2
                  @ [Print BlankRule50, Print Successful, Print Rule50,
                     Print (TextLine (res_text r)), Print (LanguageLine (get_language r)),
                     Print (SegmentsCount (case res_segments r of None \<Rightarrow> 0 | Some ss \<Rightarrow> length ss)),
                     WriteFile output_file (report_text f r), Print (ResultsSaved output_file)],
          raised = None, files_after = save_report (files w) f r\<rparr>"
proof (cases "setup_ffmpeg w")
  case (Pair evs s)
  show ?thesis
  proof (cases s)
    case (Inl x)
    with Pair show ?thesis using setup_raises by (simp add: main_def)
  next
    case (Inr ok)
    show ?thesis
    proof (cases ok)
      case False
      with Pair Inr show ?thesis using no_decoder by (simp add: main_def)
    next
      case True
      note st = Pair Inr True
      show ?thesis
      proof (cases "discoverInput (path_flavour w) (dir_entries w)")
        case Nil
        with st show ?thesis using no_input by (simp add: main_def)
      next
        case (Cons f others)
        show ?thesis
        proof (cases "getsize w f")
          case (Inl x)
          with st Cons show ?thesis using size_raises [of evs f others x]
            by (simp add: main_def Let_def)
        next
          case (Inr n)
          obtain evs2 res where t: "transcribe_audio w f ''base'' None = (evs2, res)"
            by (cases "transcribe_audio w f ''base'' None")
          show ?thesis
          proof (cases res)
            case None
            with st Cons Inr t show ?thesis using failed [of evs f others n evs2]
              by (simp add: main_def Let_def)
          next
            case (Some r)
            with st Cons Inr t show ?thesis using succeeded [of evs f others n evs2 r]
              by (simp add: main_def Let_def)
          qed
        qed
      qed
    qed
  qed
qed

section \<open>The report: format of the segments\<close>

lemma two_digits: "10 * ((n::nat) mod 100 div 10) + n mod 10 = n mod 100"
proof -
  have "n mod 10 = n mod 100 mod 10" by (simp add: mod_mod_cancel)
  then show ?thesis by (simp only: mult_div_mod_eq)
qed

lemma fmt_2f_shape:
  "\<exists>ip a b. fmt_2f x = (if x < 0 then ''-'' else '''') @ ip @ ''.'' @ [a, b]
      \<and> ip \<noteq> [] \<and> list_all is_dec (ip @ [a, b])
      \<and> \<bar>of_nat (dec_value ip) + of_nat (dec_value [a, b]) / 100 - \<bar>x\<bar>\<bar> \<le> 1 / 200"
proof -
  define n where "n = round_half_even (\<bar>x\<bar> * 100)"
  define a where "a = digit (n mod 100 div 10)"
  define b where "b = digit (n mod 10)"
  have lt: "n mod 100 div 10 < 10" "n mod 10 < 10" by simp_all
  have shape: "fmt_2f x = (if x < 0 then ''-'' else '''') @ str_nat (n div 100) @ ''.'' @ [a, b]"
    by (simp add: fmt_2f_def n_def a_def b_def Let_def)
  have digits: "list_all is_dec (str_nat (n div 100) @ [a, b])"
    using lt by (simp add: str_nat_dec digit_is_dec a_def b_def)
  have "dec_value [a, b] = 10 * (n mod 100 div 10) + n mod 10"
    using lt by (simp add: dec_value_def a_def b_def digit_value)
  also have "\<dots> = n mod 100" by (rule two_digits)
  finally have frac: "dec_value [a, b] = n mod 100" .
  have "n = 100 * (n div 100) + n mod 100" by simp
  then have "(of_nat n :: rat) = 100 * of_nat (n div 100) + of_nat (n mod 100)"
    by (metis of_nat_add of_nat_mult of_nat_numeral)
  then have val: "of_nat (dec_value (str_nat (n div 100))) + of_nat (dec_value [a, b]) / 100
      = (of_nat n :: rat) / 100"
    by (simp add: dec_value_str_nat frac)
  have "\<bar>\<bar>x\<bar> * 100 - of_nat n\<bar> \<le> 1 / 2"
    unfolding n_def by (rule round_half_even_near) simp
  then have "\<bar>of_nat n / 100 - \<bar>x\<bar>\<bar> \<le> 1 / 200"
    by (simp add: abs_if split: if_splits)
  then have near: "\<bar>of_nat (dec_value (str_nat (n div 100))) + of_nat (dec_value [a, b]) / 100 - \<bar>x\<bar>\<bar> \<le> 1 / 200"
    by (simp only: val)
  from shape digits near str_nat_nonempty show ?thesis by blast
qed

lemma report_text_segments:
  "res_segments r = Some ss \<Longrightarrow>
   report_text audio_file r =
     report_preamble audio_file r @ ''\<newline>Detailed segments:\<newline>''
     @ concat (map (\<lambda>k. write_segment k (ss ! k)) [0..<length ss])"
  using write_segments_nth [of 0 ss] by (simp add: report_text_def)

lemma report_preamble_segments [simp]:
  "report_preamble audio_file (r\<lparr>res_segments := x\<rparr>) = report_preamble audio_file r"
  by (simp add: report_preamble_def get_language_def)

lemma fmt_2f_zero: "fmt_2f 0 = ''0.00''"
  by (simp add: fmt_2f_def round_half_even_def str_nat_small digit_def)

lemma fmt_2f_two_and_a_half: "fmt_2f (5 / 2) = ''2.50''"
  by (simp add: fmt_2f_def round_half_even_def str_nat_small digit_def)

lemma str_nat_one: "str_nat (Suc 0) = ''1''"
  by (simp add: str_nat_small digit_def)

lemma report_text_hello:
  "report_text audio_file
     (r\<lparr>res_segments := Some [\<lparr>seg_start = 0, seg_end = 5 / 2, seg_text = ''hello''\<rparr>]\<rparr>) =
   report_preamble audio_file r
   @ ''\<newline>Detailed segments:\<newline>\<newline>Segment 1:\<newline>  Start: 0.00s\<newline>  End: 2.50s\<newline>  Text: hello\<newline>''"
  by (simp add: report_text_def write_segment_def fmt_2f_zero fmt_2f_two_and_a_half str_nat_one)

text \<open>
  Claim C7. When the result has the key \<^verbatim>\<open>segments\<close>, the report is the six opening
  lines, the line \<^verbatim>\<open>Detailed segments:\<close> and then one entry for each segment, in the order
  of the list; the entry of the segment at position \<open>k\<close> (counted from 0) is headed
  \<^verbatim>\<open>Segment\<close> followed by the decimal digits of \<open>k + 1\<close>, then its start, its end and its
  text. A time is printed in fixed-point notation: an optional sign, at least one digit,
  a point and exactly two digits, and the number printed is within half a hundredth of
  the time. For the one segment from 0.0 to 2.5 with the text \<^verbatim>\<open>hello\<close> the block reads
  \<^verbatim>\<open>Segment 1:\<close>, \<^verbatim>\<open>Start: 0.00s\<close>, \<^verbatim>\<open>End: 2.50s\<close>, \<^verbatim>\<open>Text: hello\<close>, in that order.
\<close>

theorem segments_block_format:
  "(res_segments r = Some ss \<longrightarrow>
      report_text audio_file r =
        report_preamble audio_file r @ ''\<newline>Detailed segments:\<newline>''
        @ concat (map (\<lambda>k. write_segment k (ss ! k)) [0..<length ss]))
   \<and> write_segment k s =
        ''\<newline>Segment '' @ str_nat (k + 1) @ '':\<newline>''
        @ ''  Start: '' @ fmt_2f (seg_start s) @ ''s\<newline>''
        @ ''  End: '' @ fmt_2f (seg_end s) @ ''s\<newline>''
        @ ''  Text: '' @ seg_text s @ ''\<newline>''
   \<and> list_all is_dec (str_nat (k + 1)) \<and> dec_value (str_nat (k + 1)) = k + 1
   \<and> (\<exists>ip a b. fmt_2f x = (if x < 0 then ''-'' else '''') @ ip @ ''.'' @ [a, b]
         \<and> ip \<noteq> [] \<and> list_all is_dec (ip @ [a, b])
         \<and> \<bar>of_nat (dec_value ip) + of_nat (dec_value [a, b]) / 100 - \<bar>x\<bar>\<bar> \<le> 1 / 200)
   \<and> report_text audio_file
        (r\<lparr>res_segments := Some [\<lparr>seg_start = 0, seg_end = 5 / 2, seg_text = ''hello''\<rparr>]\<rparr>) =
      report_preamble audio_file r
      @ ''\<newline>Detailed segments:\<newline>\<newline>Segment 1:\<newline>  Start: 0.00s\<newline>  End: 2.50s\<newline>  Text: hello\<newline>''"
proof -
  have "write_segment k s =
        ''\<newline>Segment '' @ str_nat (k + 1) @ '':\<newline>''
        @ ''  Start: '' @ fmt_2f (seg_start s) @ ''s\<newline>''
        @ ''  End: '' @ fmt_2f (seg_end s) @ ''s\<newline>''
        @ ''  Text: '' @ seg_text s @ ''\<newline>''"
    by (simp only: write_segment_def)
  then show ?thesis
    using report_text_segments [of r ss audio_file] str_nat_dec [of "k + 1"]
      dec_value_str_nat [of "k + 1"] fmt_2f_shape [of x] report_text_hello [of audio_file r]
    by blast
qed

text \<open>The report of the example result, which has one segment.\<close>

theorem segments_block_format_witness:
  "report_text ''a.mp3'' demo_result =
     report_preamble ''a.mp3'' demo_result
     @ ''\<newline>Detailed segments:\<newline>'' @ write_segment 0 \<lparr>seg_start = 0, seg_end = 5 / 2, seg_text = ''hello''\<rparr>"
  using segments_block_format [of demo_result "[\<lparr>seg_start = 0, seg_end = 5 / 2, seg_text = ''hello''\<rparr>]" "''a.mp3''"]
  by (simp add: demo_result_def)

section \<open>The report: written whole, the same each time\<close>

lemma setup_ffmpeg_files [simp]: "setup_ffmpeg (w\<lparr>files := fs\<rparr>) = setup_ffmpeg w"
  by (simp add: setup_ffmpeg_def split: option.splits)

lemma transcribe_audio_files [simp]:
  "transcribe_audio (w\<lparr>files := fs\<rparr>) p m l = transcribe_audio w p m l"
  by (simp add: transcribe_audio_def transcribe_try_def Let_def split: option.splits)

lemma main_files:
  "trace (main (w\<lparr>files := fs\<rparr>)) = trace (main w)"
  "files_after (main w) = files w \<or> (\<exists>f r. \<forall>fs. files_after (main (w\<lparr>files := fs\<rparr>)) = save_report fs f r)"
proof -
  show "trace (main (w\<lparr>files := fs\<rparr>)) = trace (main w)"
    by (simp add: main_def Let_def split: prod.splits sum.splits list.splits option.splits)
  show "files_after (main w) = files w \<or> (\<exists>f r. \<forall>fs. files_after (main (w\<lparr>files := fs\<rparr>)) = save_report fs f r)"
  proof (rule main_cases [where w = w])
    fix evs f others n evs2 r
    assume "setup_ffmpeg w = (evs, Inr True)" "discoverInput (path_flavour w) (dir_entries w) = f # others"
      "getsize w f = Inr n" "transcribe_audio w f ''base'' None = (evs2, Some r)"
    then have "\<forall>fs. files_after (main (w\<lparr>files := fs\<rparr>)) = save_report fs f r"
      by (simp add: main_def Let_def)
    then show ?thesis by blast
  qed simp_all
qed

lemma save_report_twice: "save_report (save_report fs a r) a r = save_report fs a r"
  by (simp add: save_report_def)

text \<open>
  Claim C6. The text of the report is a function of the audio path and the result
  alone. Writing it leaves that text in the output file whatever the file held before,
  so two renderings of the same pair are the same bytes, and rendering a second time
  changes nothing. For whole runs: what a run does never depends on the files it found,
  and a second run with the same answers, started on the files the first one left,
  leaves them as they are.
\<close>

theorem report_rendering_idempotent:
  "save_report fs audio_file r output_file = Some (report_text audio_file r)
   \<and> save_report fs audio_file r output_file = save_report fs' audio_file r output_file
   \<and> save_report (save_report fs audio_file r) audio_file r = save_report fs audio_file r
   \<and> trace (main (w\<lparr>files := fs\<rparr>)) = trace (main w)
   \<and> files_after (main (w\<lparr>files := files_after (main w)\<rparr>)) = files_after (main w)"
proof -
  have "files_after (main (w\<lparr>files := files_after (main w)\<rparr>)) = files_after (main w)"
  proof -
    from main_files(2) [of w] show ?thesis
    proof
      assume "files_after (main w) = files w"
      then show ?thesis by simp
    next
      assume "\<exists>f r. \<forall>fs. files_after (main (w\<lparr>files := fs\<rparr>)) = save_report fs f r"
      then obtain f r where a: "\<And>fs. files_after (main (w\<lparr>files := fs\<rparr>)) = save_report fs f r"
        by blast
      from a [of "files w"] have "files_after (main w) = save_report (files w) f r" by simp
      with a [of "files_after (main w)"] show ?thesis by (simp add: save_report_twice)
    qed
  qed
  then show ?thesis using main_files(1) [where w = w and fs = fs] by (simp add: save_report_def)
qed

section \<open>The report: the header of the segments\<close>

text \<open>
  Claim C8. For a result whose list of segments is empty, the report is the six opening
  lines followed by the line \<^verbatim>\<open>Detailed segments:\<close> and nothing after it; it is the report
  of the same result without the key \<^verbatim>\<open>segments\<close>, with that one line added.
\<close>

theorem empty_segments_header_only:
  "res_segments r = Some [] \<Longrightarrow>
   report_text audio_file r = report_preamble audio_file r @ ''\<newline>Detailed segments:\<newline>''
   \<and> report_text audio_file r =
       report_text audio_file (r\<lparr>res_segments := None\<rparr>) @ ''\<newline>Detailed segments:\<newline>''"
  by (simp add: report_text_def)

text \<open>The example result with its list of segments emptied.\<close>

theorem empty_segments_header_only_witness:
  "report_text ''a.mp3'' (demo_result\<lparr>res_segments := Some []\<rparr>) =
     report_preamble ''a.mp3'' demo_result @ ''\<newline>Detailed segments:\<newline>''"
proof -
  have h: "res_segments (demo_result\<lparr>res_segments := Some []\<rparr>) = Some []" by simp
  have "report_text ''a.mp3'' (demo_result\<lparr>res_segments := Some []\<rparr>) =
      report_preamble ''a.mp3'' (demo_result\<lparr>res_segments := Some []\<rparr>)
      @ ''\<newline>Detailed segments:\<newline>''"
    by (rule empty_segments_header_only [OF h, THEN conjunct1])
  then show ?thesis by simp
qed

text \<open>
  Claim C10. For a result without the key \<^verbatim>\<open>segments\<close> the report is the six opening lines
  and stops there: no header line. For a result with the key, whatever the list, the
  header line follows the six lines, and the entries follow the header.
\<close>

theorem header_only_with_segments_key:
  "(res_segments r = None \<longrightarrow> report_text audio_file r = report_preamble audio_file r)
   \<and> (\<forall>ss. res_segments r = Some ss \<longrightarrow>
         report_text audio_file r =
           report_preamble audio_file r @ ''\<newline>Detailed segments:\<newline>'' @ write_segments 0 ss)
   \<and> report_preamble audio_file r =
        ''WHISPER TRANSCRIPTION RESULTS\<newline>''
        @ replicate 50 CHR ''='' @ ''\<newline>''
        @ ''Audio file: '' @ audio_file @ ''\<newline>''
        @ ''Model: base\<newline>''
        @ ''Language: '' @ (case res_language r of None \<Rightarrow> ''Unknown'' | Some l \<Rightarrow> l) @ ''\<newline>''
        @ ''Text: '' @ res_text r @ ''\<newline>''"
  by (simp add: report_text_def report_preamble_def get_language_def)

text \<open>The example result without the key, and with an empty list.\<close>

theorem header_only_with_segments_key_witness:
  "report_text ''a.mp3'' (demo_result\<lparr>res_segments := None\<rparr>) =
     report_preamble ''a.mp3'' demo_result
   \<and> report_text ''a.mp3'' (demo_result\<lparr>res_segments := Some []\<rparr>) =
     report_preamble ''a.mp3'' demo_result @ ''\<newline>Detailed segments:\<newline>''"
proof -
  have n: "res_segments (demo_result\<lparr>res_segments := None\<rparr>) = None"
    and e: "res_segments (demo_result\<lparr>res_segments := Some []\<rparr>) = Some []" by simp_all
  have 1: "report_text ''a.mp3'' (demo_result\<lparr>res_segments := None\<rparr>) =
      report_preamble ''a.mp3'' (demo_result\<lparr>res_segments := None\<rparr>)"
    by (rule header_only_with_segments_key [THEN conjunct1, THEN mp, OF n])
  have 2: "report_text ''a.mp3'' (demo_result\<lparr>res_segments := Some []\<rparr>) =
      report_preamble ''a.mp3'' (demo_result\<lparr>res_segments := Some []\<rparr>)
      @ ''\<newline>Detailed segments:\<newline>'' @ write_segments 0 []"
    by (rule header_only_with_segments_key [THEN conjunct2, THEN conjunct1, THEN spec, THEN mp, OF e])
  from 1 2 show ?thesis by simp
qed

section \<open>Example runs, evaluated\<close>

lemma discoverInput_demo:
  "discoverInput (path_flavour demo_world) (dir_entries demo_world) = [''a.mp3'', ''b.wav'']"
  by (simp add: discoverInput_def demo_world_def audio_extensions_def glob_star_def
      name_matches_def endswith_def)

lemma setup_ffmpeg_demo:
  "setup_ffmpeg demo_world =
     ([SetPATH ''ffmpeg-master-latest-win64-gpl/bin:/usr/bin'',
       Print (AddedFfmpeg ''ffmpeg-master-latest-win64-gpl/bin'')], Inr True)"
  by (simp add: setup_ffmpeg_def demo_world_def)

lemma demo_variants [simp]:
  "dir_entries failing_world = dir_entries demo_world"
  "dir_entries vanished_world = dir_entries demo_world"
  "dir_entries dangling_world = dir_entries demo_world"
  "path_flavour failing_world = path_flavour demo_world"
  "path_flavour vanished_world = path_flavour demo_world"
  "path_flavour dangling_world = path_flavour demo_world"
  "setup_ffmpeg failing_world = setup_ffmpeg demo_world"
  "setup_ffmpeg vanished_world = setup_ffmpeg demo_world"
  "setup_ffmpeg dangling_world = setup_ffmpeg demo_world"
  by (simp_all add: failing_world_def vanished_world_def dangling_world_def setup_ffmpeg_def
      split: option.splits)

lemma reaches_demo:
  "reaches_transcription demo_world ''a.mp3''"
  "reaches_transcription failing_world ''a.mp3''"
  "reaches_transcription vanished_world ''a.mp3''"
  by (simp_all add: reaches_transcription_def discoverInput_demo setup_ffmpeg_demo)
     (simp_all add: demo_world_def failing_world_def vanished_world_def)

section \<open>Errors of the library and the report\<close>



lemma setup_ffmpeg_events:
  "setup_ffmpeg w = (evs, s) \<Longrightarrow>
   reports_written evs = [] \<and> transcribe_calls evs = [] \<and> files_used evs = []"
  using setup_ffmpeg_quiet [of w] by simp

lemma transcribe_audio_events:
  "transcribe_audio w p m l = (evs, res) \<Longrightarrow>
   reports_written evs = [] \<and> files_used evs = []
   \<and> transcribe_calls evs =
       (if exists_in_transcribe w p \<and> load_model w m = None then [(p, kw_of l)] else [])"
  using transcribe_audio_quiet [of w p m l] transcribe_audio_calls [of w p m l] by simp

lemma events_append [simp]:
  "reports_written (t @ u) = reports_written t @ reports_written u"
  "transcribe_calls (t @ u) = transcribe_calls t @ transcribe_calls u"
  "files_used (t @ u) = files_used t @ files_used u"
  by (simp_all add: reports_written_def transcribe_calls_def files_used_def)

lemma events_Cons [simp]:
  "reports_written (ev # t) = report_write ev @ reports_written t"
  "transcribe_calls (ev # t) = transcribe_call ev @ transcribe_calls t"
  "files_used (ev # t) = using_file ev @ files_used t"
  "reports_written [] = []" "transcribe_calls [] = []" "files_used [] = []"
  by (simp_all add: reports_written_def transcribe_calls_def files_used_def)

lemma main_reports:
  "reports_written (trace (main w)) =
     (case discoverInput (path_flavour w) (dir_entries w) of
        [] \<Rightarrow> []
      | f # others \<Rightarrow>
          if reaches_transcription w f
          then (case snd (transcribe_audio w f ''base'' None) of
                  None \<Rightarrow> [] | Some r \<Rightarrow> [report_text f r])
          else [])"
  by (rule main_cases [where w = w]; frule setup_ffmpeg_events;
      (frule transcribe_audio_events)?;
      simp add: reaches_transcription_def split: list.splits)

lemma main_files_after:
  "files_after (main w) =
     (case reports_written (trace (main w)) of
        [] \<Rightarrow> files w
      | c # cs \<Rightarrow> (files w)(output_file \<mapsto> c))"
  by (rule main_cases [where w = w]; frule setup_ffmpeg_events;
      (frule transcribe_audio_events)?; simp add: save_report_def)

lemma main_calls:
  "transcribe_calls (trace (main w)) =
     (case discoverInput (path_flavour w) (dir_entries w) of
        [] \<Rightarrow> []
      | f # others \<Rightarrow>
          if reaches_transcription w f \<and> exists_in_transcribe w f \<and> load_model w ''base'' = None
          then [(f, NoKw)] else [])"
  by (rule main_cases [where w = w]; frule setup_ffmpeg_events;
      (frule transcribe_audio_events)?;
      simp add: reaches_transcription_def kw_of_def truthy_def split: list.splits)

lemma main_used:
  "files_used (trace (main w)) =
     (case discoverInput (path_flavour w) (dir_entries w) of
        [] \<Rightarrow> []
      | f # others \<Rightarrow> if snd (setup_ffmpeg w) = Inr True then [f] else [])"
  by (rule main_cases [where w = w]; frule setup_ffmpeg_events;
      (frule transcribe_audio_events)?; simp split: list.splits)

lemma main_raised:
  "raised (main w) =
     (case snd (setup_ffmpeg w) of
        Inl x \<Rightarrow> Some x
      | Inr ok \<Rightarrow>
          if \<not> ok then None
          else (case discoverInput (path_flavour w) (dir_entries w) of
                  [] \<Rightarrow> None
                | f # others \<Rightarrow> (case getsize w f of Inl x \<Rightarrow> Some x | Inr n \<Rightarrow> None)))"
  by (rule main_cases [where w = w]; simp)

lemma main_messages:
  "reaches_transcription w f \<Longrightarrow>
   set (fst (transcribe_audio w f ''base'' None)) \<subseteq> set (trace (main w))
   \<and> (snd (transcribe_audio w f ''base'' None) = None \<longrightarrow>
        last (trace (main w)) = Print TranscriptionFailed)"
  by (rule main_cases [where w = w]; auto simp: reaches_transcription_def)

lemma reaches_hd:
  "reaches_transcription w f \<Longrightarrow> \<exists>others. discoverInput (path_flavour w) (dir_entries w) = f # others"
  by (auto simp: reaches_transcription_def split: list.splits)

lemma reaches_unique:
  "reaches_transcription w f \<Longrightarrow> reaches_transcription w g \<Longrightarrow> f = g"
  by (auto simp: reaches_transcription_def split: list.splits)

lemma main_reports_reached:
  "reaches_transcription w f \<Longrightarrow>
   reports_written (trace (main w)) =
     (case snd (transcribe_audio w f ''base'' None) of None \<Rightarrow> [] | Some r \<Rightarrow> [report_text f r])"
  using reaches_hd [of w f] by (auto simp: main_reports)


lemma main_raised_reached: "reaches_transcription w f \<Longrightarrow> raised (main w) = None"
  by (auto simp: main_raised reaches_transcription_def split: list.splits sum.splits)



section \<open>A candidate that is not there\<close>

lemma main_no_decoder:
  "snd (setup_ffmpeg w) = Inr False \<Longrightarrow>
   main w = \<lparr>trace = [Print FfmpegNotFound], raised = None, files_after = files w\<rparr>"
  by (rule main_cases [where w = w]; frule setup_ffmpeg_last [of w, simplified]; simp)

lemma main_no_input:
  "snd (setup_ffmpeg w) = Inr True \<Longrightarrow> discoverInput (path_flavour w) (dir_entries w) = [] \<Longrightarrow>
   raised (main w) = None \<and> last (trace (main w)) = Print NoAudioFiles
   \<and> transcribe_calls (trace (main w)) = [] \<and> files_after (main w) = files w"
  by (rule main_cases [where w = w]; frule setup_ffmpeg_events; simp)

text \<open>
  Claim C3. Every error of a run is to end in a message and a clean end. The run below
  finds \<^verbatim>\<open>a.mp3\<close>, a link to a file that is not there. It prints \<^verbatim>\<open>File exists: False\<close>;
  then \<^verbatim>\<open>os.path.getsize\<close>, called outside any \<^verbatim>\<open>try\<close>, raises \<^verbatim>\<open>FileNotFoundError\<close>, and
  the exception leaves \<^verbatim>\<open>main\<close>: the guarded check of \<^verbatim>\<open>transcribe_audio\<close> for this very
  condition is never reached, and \<^verbatim>\<open>Transcription failed!\<close> is never printed.
\<close>

theorem missing_file_crashes_main:
  "main dangling_world =
     \<lparr>trace = [SetPATH ''ffmpeg-master-latest-win64-gpl/bin:/usr/bin'',
                Print (AddedFfmpeg ''ffmpeg-master-latest-win64-gpl/bin''),
                Print (FoundAudioFiles [''a.mp3'', ''b.wav'']), Print Rule50, Print TestingBase,
                Print Rule50, Print (UsingAudioFile ''a.mp3''), Print (FileExists False)],
      raised = Some (Exn ''FileNotFoundError''
                 (''[Errno 2] No such file or directory: '' @ [CHR 0x27] @ ''a.mp3'' @ [CHR 0x27])),
      files_after = Map.empty\<rparr>"
  by (simp add: main_def discoverInput_demo setup_ffmpeg_demo)
     (simp add: dangling_world_def demo_world_def)

text \<open>
  Claim C4. When the path does not exist at the check \<^verbatim>\<open>transcribe_audio\<close> makes, the
  function returns \<^verbatim>\<open>None\<close>, having printed the message and the type
  \<^verbatim>\<open>FileNotFoundError\<close> and nothing else: the exception is caught inside, and the library
  is not called. A run that reaches this call on such a path ends without an exception,
  with \<^verbatim>\<open>Transcription failed!\<close> as its last line, and writes no report.
\<close>

theorem missing_input_returns_none:
  "(\<not> exists_in_transcribe w p \<longrightarrow>
      transcribe_audio w p m l =
        ([Print (ErrorWith m (''Audio file not found: '' @ p)),
          Print (ErrorType ''FileNotFoundError'')], None))
   \<and> (reaches_transcription w f \<and> \<not> exists_in_transcribe w f \<longrightarrow>
        raised (main w) = None
        \<and> transcribe_calls (trace (main w)) = []
        \<and> Print (ErrorType ''FileNotFoundError'') \<in> set (trace (main w))
        \<and> last (trace (main w)) = Print TranscriptionFailed
        \<and> reports_written (trace (main w)) = []
        \<and> files_after (main w) = files w)"
proof (intro conjI impI)
  assume "\<not> exists_in_transcribe w p"
  then show "transcribe_audio w p m l =
        ([Print (ErrorWith m (''Audio file not found: '' @ p)),
          Print (ErrorType ''FileNotFoundError'')], None)"
    by (simp add: transcribe_audio_def transcribe_try_def)
next
  assume "reaches_transcription w f \<and> \<not> exists_in_transcribe w f"
  then have re: "reaches_transcription w f" and ne: "\<not> exists_in_transcribe w f" by simp_all
  from ne have t: "transcribe_audio w f ''base'' None =
        ([Print (ErrorWith ''base'' (''Audio file not found: '' @ f)),
          Print (ErrorType ''FileNotFoundError'')], None)"
    by (simp add: transcribe_audio_def transcribe_try_def)
  show "raised (main w) = None" by (rule main_raised_reached [OF re])
  from re ne reaches_hd [OF re] show "transcribe_calls (trace (main w)) = []"
    by (auto simp: main_calls)
  from t main_messages [OF re]
  show "Print (ErrorType ''FileNotFoundError'') \<in> set (trace (main w))" by simp
  from t main_messages [OF re]
  show "last (trace (main w)) = Print TranscriptionFailed" by simp
  from t show r: "reports_written (trace (main w)) = []"
    by (simp add: main_reports_reached [OF re])
  then show "files_after (main w) = files w" by (simp add: main_files_after)
qed

text \<open>The run whose file is removed after its size was read.\<close>

theorem missing_input_returns_none_witness:
  "transcribe_audio vanished_world ''a.mp3'' ''base'' None =
     ([Print (ErrorWith ''base'' ''Audio file not found: a.mp3''),
       Print (ErrorType ''FileNotFoundError'')], None)
   \<and> raised (main vanished_world) = None
   \<and> reports_written (trace (main vanished_world)) = []
   \<and> files_after (main vanished_world) = files vanished_world"
proof -
  have ne: "\<not> exists_in_transcribe vanished_world ''a.mp3''"
    by (simp add: vanished_world_def)
  from ne reaches_demo(3)
    missing_input_returns_none [of vanished_world "''a.mp3''" "''base''" None "''a.mp3''"]
  show ?thesis by simp
qed

section \<open>The language hint\<close>

lemma demo_calls:
  "transcribe_calls (fst (transcribe_audio demo_world ''a.mp3'' ''base'' l)) = [(''a.mp3'', kw_of l)]"
  by (simp add: transcribe_audio_calls) (simp add: demo_world_def)

text \<open>
  Claim C5, as stated, fails for the hint that is the empty string: the hint is there,
  and \<^verbatim>\<open>if language:\<close> takes it for absent, so the model is called without the keyword.
\<close>

theorem empty_hint_is_omitted:
  "transcribe_calls (fst (transcribe_audio demo_world ''a.mp3'' ''base'' (Some ''''))) =
     [(''a.mp3'', NoKw)]"
  by (simp add: demo_calls kw_of_def truthy_def)

text \<open>
  Claim C5, amended. When \<^verbatim>\<open>transcribe_audio\<close> calls the model, it calls it once, on the
  path it was given: with the keyword \<^verbatim>\<open>language\<close> and the hint when the hint is a string
  that is not empty, without the keyword when the hint is \<^verbatim>\<open>None\<close> or the empty string.
  The keyword is never passed with \<^verbatim>\<open>None\<close> or with the empty string.
\<close>

theorem language_hint_two_paths:
  "transcribe_calls (fst (transcribe_audio w p m l)) =
     (if exists_in_transcribe w p \<and> load_model w m = None
      then [(p, case l of None \<Rightarrow> NoKw | Some s \<Rightarrow> if s = [] then NoKw else Kw (Some s))]
      else [])
   \<and> list_all (\<lambda>c. snd c \<noteq> Kw None \<and> snd c \<noteq> Kw (Some []))
        (transcribe_calls (fst (transcribe_audio w p m l)))"
  by (simp add: transcribe_audio_calls kw_of_def truthy_def split: option.splits)

text \<open>The two paths, on the example run.\<close>

theorem language_hint_two_paths_witness:
  "transcribe_calls (fst (transcribe_audio demo_world ''a.mp3'' ''base'' (Some ''en''))) =
     [(''a.mp3'', Kw (Some ''en''))]
   \<and> transcribe_calls (fst (transcribe_audio demo_world ''a.mp3'' ''base'' None)) =
     [(''a.mp3'', NoKw)]"
proof -
  have d: "exists_in_transcribe demo_world ''a.mp3'' \<and> load_model demo_world ''base'' = None"
    by (simp add: demo_world_def)
  from d language_hint_two_paths [of demo_world "''a.mp3''" "''base''" "Some ''en''"]
    language_hint_two_paths [of demo_world "''a.mp3''" "''base''" None]
  show ?thesis by simp
qed

section \<open>One file for each run\<close>

text \<open>
  Claim C9. In a run whose scan finds at least one file, the file announced and used is
  the first of the list found, whenever the set-up let the run go on; the model is
  called at most once, and if it is called, it is called on that first file, without a
  language.
\<close>

theorem only_first_candidate_transcribed:
  assumes "discoverInput (path_flavour w) (dir_entries w) = f # others"
  shows "(snd (setup_ffmpeg w) = Inr True \<longrightarrow> files_used (trace (main w)) = [f])
    \<and> (transcribe_calls (trace (main w)) = [] \<or> transcribe_calls (trace (main w)) = [(f, NoKw)])
    \<and> (transcribe_calls (trace (main w)) = [(f, NoKw)] \<longleftrightarrow>
         reaches_transcription w f \<and> exists_in_transcribe w f \<and> load_model w ''base'' = None)
    \<and> length (transcribe_calls (trace (main w))) \<le> 1"
  using assms by (simp add: main_used main_calls)

text \<open>The example run, which finds two files and transcribes the first.\<close>

theorem only_first_candidate_transcribed_witness:
  "files_used (trace (main demo_world)) = [''a.mp3'']
   \<and> transcribe_calls (trace (main demo_world)) = [(''a.mp3'', NoKw)]"
proof -
  have d: "exists_in_transcribe demo_world ''a.mp3'' \<and> load_model demo_world ''base'' = None"
    by (simp add: demo_world_def)
  have s: "snd (setup_ffmpeg demo_world) = Inr True" by (simp add: setup_ffmpeg_demo)
  from d s reaches_demo(1) only_first_candidate_transcribed [OF discoverInput_demo]
  show ?thesis by simp
qed

section \<open>The order of the files found\<close>

text \<open>
  Claim C2, as stated, fails in two ways. For a directory that lists \<^verbatim>\<open>b.wav\<close> before
  \<^verbatim>\<open>a.mp3\<close>, the files with an audio extension are, in the order of the listing, \<^verbatim>\<open>b.wav\<close>
  and \<^verbatim>\<open>a.mp3\<close>, and the scan returns \<^verbatim>\<open>a.mp3\<close> first, because it asks for one extension
  after the other. And on Windows the scan returns \<^verbatim>\<open>A.MP3\<close>, whose extension is in the list
  only when case is ignored.
\<close>

theorem discoverInput_reorders:
  "discoverInput Posix [File ''b.wav'', File ''a.mp3''] = [''a.mp3'', ''b.wav'']
   \<and> filter (is_audio_name Posix) (map entry_name [File ''b.wav'', File ''a.mp3''])
       = [''b.wav'', ''a.mp3'']
   \<and> discoverInput Windows [File ''b.wav'', File ''a.mp3''] = [''a.mp3'', ''b.wav'']
   \<and> discoverInput Windows [File ''A.MP3''] = [''A.MP3'']
   \<and> \<not> endswith ''.mp3'' ''A.MP3''"
  by (simp add: discoverInput_def audio_extensions_def glob_star_def name_matches_def
      endswith_def is_audio_name_def lower_def)

text \<open>
  Claim C2, amended. The scan looks at the entries of the one directory, not below it.
  A name has an extension of the list when it ends with it, compared as the flavour of
  the platform compares names: with case on POSIX, ignoring case on Windows. The scan
  returns the names with the extension \<^verbatim>\<open>.mp3\<close>, then those with \<^verbatim>\<open>.wav\<close>, \<^verbatim>\<open>.m4a\<close>, \<^verbatim>\<open>.flac\<close>
  and \<^verbatim>\<open>.ogg\<close>: grouped by extension in the order of the list of extensions, and within
  one extension in the order of the listing. Every entry with one of the five extensions
  is returned once for each time it is listed, and nothing else is returned.
\<close>

theorem discoverInput_grouped_by_extension:
  "discoverInput fl es =
     filter (name_matches fl ''.mp3'') (map entry_name es)
     @ filter (name_matches fl ''.wav'') (map entry_name es)
     @ filter (name_matches fl ''.m4a'') (map entry_name es)
     @ filter (name_matches fl ''.flac'') (map entry_name es)
     @ filter (name_matches fl ''.ogg'') (map entry_name es)
   \<and> mset (discoverInput fl es) = mset (filter (is_audio_name fl) (map entry_name es))
   \<and> (is_audio_name fl n \<longleftrightarrow>
        name_matches fl ''.mp3'' n \<or> name_matches fl ''.wav'' n \<or> name_matches fl ''.m4a'' n
        \<or> name_matches fl ''.flac'' n \<or> name_matches fl ''.ogg'' n)
   \<and> (e \<in> set audio_extensions \<longrightarrow>
        name_matches Posix e n = endswith e n
        \<and> name_matches Windows e n = endswith e (map lower n))
   \<and> discoverInput Posix
        [Dir ''sub'' [File ''c.ogg''], File ''A.MP3'', File ''x.flac'', File ''notes.txt'']
       = [''x.flac'']
   \<and> discoverInput Windows
        [Dir ''sub'' [File ''c.ogg''], File ''A.MP3'', File ''x.flac'', File ''notes.txt'']
       = [''A.MP3'', ''x.flac'']"
proof -
  have "discoverInput Posix
        [Dir ''sub'' [File ''c.ogg''], File ''A.MP3'', File ''x.flac'', File ''notes.txt'']
       = [''x.flac'']"
    by (simp add: discoverInput_def audio_extensions_def glob_star_def name_matches_def
        endswith_def)
  moreover have "discoverInput Windows
        [Dir ''sub'' [File ''c.ogg''], File ''A.MP3'', File ''x.flac'', File ''notes.txt'']
       = [''A.MP3'', ''x.flac'']"
    by (simp add: discoverInput_def audio_extensions_def glob_star_def name_matches_def
        endswith_def lower_def)
  moreover have "is_audio_name fl n \<longleftrightarrow>
        name_matches fl ''.mp3'' n \<or> name_matches fl ''.wav'' n \<or> name_matches fl ''.m4a'' n
        \<or> name_matches fl ''.flac'' n \<or> name_matches fl ''.ogg'' n"
    by (simp add: is_audio_name_def audio_extensions_def)
  moreover have "e \<in> set audio_extensions \<longrightarrow>
        name_matches Posix e n = endswith e n
        \<and> name_matches Windows e n = endswith e (map lower n)"
    using casefold_extensions [of e Windows] by (auto simp: name_matches_def)
  ultimately show ?thesis
    using discoverInput_groups [of fl es] discoverInput_mset [of fl es]
    by (simp only: glob_star_def simp_thms)
qed

theorem discoverInput_grouped_by_extension_witness:
  "name_matches Posix ''.mp3'' ''a.mp3'' \<and> \<not> name_matches Posix ''.mp3'' ''A.MP3''
   \<and> name_matches Windows ''.mp3'' ''A.MP3''"
proof -
  have e: "''.mp3'' \<in> set audio_extensions" by (simp add: audio_extensions_def)
  from e discoverInput_grouped_by_extension [of Posix "[]" "''a.mp3''" "''.mp3''"]
  have 1: "name_matches Posix ''.mp3'' ''a.mp3'' = endswith ''.mp3'' ''a.mp3''" by blast
  from e discoverInput_grouped_by_extension [of Posix "[]" "''A.MP3''" "''.mp3''"]
  have 2: "name_matches Posix ''.mp3'' ''A.MP3'' = endswith ''.mp3'' ''A.MP3''"
    and 3: "name_matches Windows ''.mp3'' ''A.MP3'' = endswith ''.mp3'' (map lower ''A.MP3'')"
    by blast+
  show ?thesis unfolding 1 2 3 by (simp add: endswith_def lower_def)
qed

end
